theory Spec2Isabelle
  imports Main
begin

section \<open>The review-app action of \<open>src/index.js\<close>\<close>

text \<open>
  The action is one asynchronous function \<open>run\<close> whose remote calls are all awaited one
  after the other. The embedding passes an explicit state through every call: the state of
  the remote world, the chronological list of remote calls together with the answers they
  got, and what the action reported (annotations, failure message, outputs).

  The model starts at line 42 of \<open>index.js\<close>: the three required inputs have been read
  and \<open>github.context\<close> has been destructured into the local constants of lines 23 to 40.
  \<open>core.debug\<close>, \<open>core.info\<close>, \<open>core.startGroup\<close> and \<open>core.endGroup\<close> only print and
  are left out; \<open>core.notice\<close>, \<open>core.warning\<close>, \<open>core.error\<close>, \<open>core.setFailed\<close> and
  \<open>core.setOutput\<close> are kept.
\<close>

subsection \<open>Values\<close>

text \<open>
  A thrown JavaScript error: its \<open>name\<close>, its \<open>message\<close> and its \<open>statusCode\<close> property
  (\<open>undefined\<close> is \<open>None\<close>; the HTTP client sets it on a rejected request).
\<close>

datatype js_error = JsError (err_name: string) (message: string) (statusCode: "nat option")

definition Error :: "string \<Rightarrow> js_error" where
  "Error msg = JsError ''Error'' msg None"

definition TypeError :: "string \<Rightarrow> js_error" where
  "TypeError msg = JsError ''TypeError'' msg None"

text \<open>\<open>Error.prototype.toString\<close>, used by the template literal of line 262 and by \<open>core.error(err)\<close>.\<close>

definition toString :: "js_error \<Rightarrow> string" where
  "toString e =
     (if err_name e = [] then message e
      else if message e = [] then err_name e
      else err_name e @ '': '' @ message e)"

text \<open>A number inside a template literal: its decimal digits.\<close>

definition digit :: "nat \<Rightarrow> char" where
  "digit d = char_of (48 + d)"

fun string_of_nat :: "nat \<Rightarrow> string" where
  "string_of_nat n = (if n < 10 then [digit n] else string_of_nat (n div 10) @ [digit (n mod 10)])"

declare string_of_nat.simps [simp del]

text \<open>
  An entry of the pipeline's review-app list. \<open>ra_app\<close> is the \<open>id\<close> of the nested \<open>app\<close> object,
  \<open>None\<close> while \<open>app\<close> is \<open>null\<close>; \<open>ra_error_status\<close> is \<open>None\<close> for \<open>null\<close>.
\<close>

record review_app =
  ra_id :: string
  ra_pr_number :: nat
  ra_status :: string
  ra_app :: "string option"
  ra_error_status :: "string option"

text \<open>An entry of an application's build list: \<open>source_blob.version\<close> and \<open>status\<close>.\<close>

record build =
  source_blob_version :: string
  build_status :: string

record app_details =
  app_id :: string
  web_url :: string

text \<open>The argument of \<open>downloadTarballArchive\<close> (lines 173 to 177).\<close>

record archive_body =
  archive_owner :: string
  archive_repo :: string
  archive_ref :: string

text \<open>
  The body of the create request (lines 183 to 195). \<open>fork_repo_id\<close> is \<open>None\<close> when the
  property is \<open>undefined\<close>, which \<open>JSON.stringify\<close> drops from the request.
\<close>

record create_body =
  body_branch :: string
  body_pipeline :: string
  body_source_blob_url :: string
  body_source_blob_version :: string
  fork_repo_id :: "nat option"
  body_pr_number :: nat
  body_GIT_REPO_URL :: string

text \<open>
  The constants of lines 12 to 40. \<open>action\<close> and \<open>eventName\<close> are the properties of these
  names of \<open>github.context\<close>, destructured at line 24 beside \<open>payload\<close>, not from it:
  \<open>github.context.action\<close> is the name of the running step (the environment variable
  \<open>GITHUB_ACTION\<close>). \<open>forkRepo\<close> is \<open>payload.pull_request.head.repo.fork\<close> and
  \<open>repoId\<close> is \<open>payload.pull_request.head.repo.id\<close>; \<open>repoOwner\<close> and \<open>repoName\<close> are
  \<open>repo.owner\<close> and \<open>repo.repo\<close>.

  Two more fields are part of the event payload and \<open>index.js\<close> never reads them:
  \<open>baseRepoFork\<close> is \<open>payload.pull_request.base.repo.fork\<close>, and \<open>payloadAction\<close> is
  \<open>payload.action\<close>, the activity of the pull request that triggered the event (\<open>opened\<close>,
  \<open>synchronize\<close>, \<open>reopened\<close>, \<open>closed\<close>, ...).
\<close>

record pr_context =
  herokuPipelineId :: string
  action :: string
  eventName :: string
  branch :: string
  version :: string
  repoId :: nat
  forkRepo :: bool
  repoHtmlUrl :: string
  prNumber :: nat
  repoOwner :: string
  repoName :: string
  baseRepoFork :: bool
  payloadAction :: string

definition VALID_EVENT :: string where
  "VALID_EVENT = ''pull_request''"

subsection \<open>The remote world\<close>

text \<open>
  The remote platform and the source-control API are a parameter: a state of type \<open>'w\<close> and
  one function per kind of request, which answers with a rejection (\<open>Inl\<close>) or a value
  (\<open>Inr\<close>) and the next state. The URL of each request is the one the source builds.
\<close>

record 'w platform =
  get_review_apps :: "string \<Rightarrow> 'w \<Rightarrow> (js_error + review_app list) \<times> 'w"
  get_builds :: "string \<Rightarrow> 'w \<Rightarrow> (js_error + build list) \<times> 'w"
  get_app :: "string \<Rightarrow> 'w \<Rightarrow> (js_error + app_details) \<times> 'w"
  delete_url :: "string \<Rightarrow> 'w \<Rightarrow> (js_error + unit) \<times> 'w"
  post_review_apps :: "create_body \<Rightarrow> 'w \<Rightarrow> (js_error + review_app) \<times> 'w"
  downloadTarballArchive :: "archive_body \<Rightarrow> 'w \<Rightarrow> (js_error + string) \<times> 'w"

text \<open>What the action did, in order: every remote call with its answer, and every sleep.\<close>

datatype event =
    GetReviewApps string "js_error + review_app list"
  | GetBuilds string "js_error + build list"
  | GetApp string "js_error + app_details"
  | Delete string "js_error + unit"
  | PostReviewApps create_body "js_error + review_app"
  | DownloadTarball archive_body "js_error + string"
  | WaitSeconds nat

datatype annotation = Notice string | Warning string | ErrorMsg string

record 'w run_state =
  world :: 'w
  calls :: "event list"
  annotations :: "annotation list"
  failed :: "string option"
  outputs :: "(string \<times> string) list"

definition init :: "'w \<Rightarrow> 'w run_state" where
  "init w = \<lparr>world = w, calls = [], annotations = [], failed = None, outputs = []\<rparr>"

text \<open>
  The result of a piece of the program that contains a polling loop: \<open>None\<close> when the loop
  was still polling after the given number of iterations, otherwise what was thrown or
  returned.
\<close>

type_synonym 'a outcome = "(js_error + 'a) option"

definition emit :: "event \<Rightarrow> 'w \<Rightarrow> 'w run_state \<Rightarrow> 'w run_state" where
  "emit e w s = s\<lparr>world := w, calls := calls s @ [e]\<rparr>"

definition annotate :: "annotation \<Rightarrow> 'w run_state \<Rightarrow> 'w run_state" where
  "annotate a s = s\<lparr>annotations := annotations s @ [a]\<rparr>"

definition setFailed :: "string \<Rightarrow> 'w run_state \<Rightarrow> 'w run_state" where
  "setFailed msg s = (annotate (ErrorMsg msg) s)\<lparr>failed := Some msg\<rparr>"

definition setOutput :: "string \<Rightarrow> string \<Rightarrow> 'w run_state \<Rightarrow> 'w run_state" where
  "setOutput k v s = s\<lparr>outputs := outputs s @ [(k, v)]\<rparr>"

text \<open>\<open>waitSeconds\<close> (lines 7 and 8).\<close>

definition waitSeconds :: "nat \<Rightarrow> 'w run_state \<Rightarrow> 'w run_state" where
  "waitSeconds secs s = s\<lparr>calls := calls s @ [WaitSeconds secs]\<rparr>"

subsection \<open>The helpers of \<open>run\<close>\<close>

text \<open>\<open>getAppDetails\<close> (lines 49 to 57).\<close>

definition getAppDetails ::
  "'w platform \<Rightarrow> string \<Rightarrow> 'w run_state \<Rightarrow> (js_error + app_details) \<times> 'w run_state" where
  "getAppDetails p i s =
     (let url = ''/apps/'' @ i;
          (r, w) = get_app p url (world s)
      in (r, emit (GetApp url r) w s))"

text \<open>\<open>outputAppDetails\<close> (lines 59 to 67).\<close>

definition outputAppDetails :: "app_details \<Rightarrow> 'w run_state \<Rightarrow> 'w run_state" where
  "outputAppDetails a s = setOutput ''app_web_url'' (web_url a) (setOutput ''app_id'' (app_id a) s)"

text \<open>
  \<open>findReviewApp\<close> (lines 69 to 83): one list request on \<open>apiUrl\<close>, then
  \<open>Array.prototype.find\<close> on \<open>pr_number\<close>; \<open>null\<close> is \<open>None\<close>.
\<close>

definition apiUrl :: "pr_context \<Rightarrow> string" where
  "apiUrl c = ''/pipelines/'' @ herokuPipelineId c @ ''/review-apps''"

definition findReviewApp ::
  "pr_context \<Rightarrow> 'w platform \<Rightarrow> 'w run_state \<Rightarrow> (js_error + review_app option) \<times> 'w run_state" where
  "findReviewApp c p s =
     (let (r, w) = get_review_apps p (apiUrl c) (world s);
          s' = emit (GetReviewApps (apiUrl c) r) w s
      in case r of
           Inl e \<Rightarrow> (Inl e, s')
         | Inr reviewApps \<Rightarrow> (Inr (find (\<lambda>app. ra_pr_number app = prNumber c) reviewApps), s'))"

text \<open>
  \<open>checkBuildStatusForReviewApp\<close> (lines 88 to 141). Reading \<open>app.status\<close> of \<open>null\<close>
  (line 90) and \<open>build.status\<close> of \<open>undefined\<close> (line 129) throw a \<open>TypeError\<close>; the block
  of lines 115 to 121 only prints and falls through to line 129. The message of line 136
  interpolates the \<open>status\<close> and the \<open>error_status\<close> of the review app.
\<close>

definition null_status_fault :: js_error where
  "null_status_fault = TypeError ''Cannot read properties of null (reading 'status')''"

definition undefined_status_fault :: js_error where
  "undefined_status_fault = TypeError ''Cannot read properties of undefined (reading 'status')''"

definition errorDetail :: "string option \<Rightarrow> string" where
  "errorDetail errorStatus =
     (case errorStatus of
        None \<Rightarrow> ''no error provided''
      | Some d \<Rightarrow> (if d = [] then ''no error provided'' else d))"

definition checkBuildStatusForReviewApp ::
  "pr_context \<Rightarrow> 'w platform \<Rightarrow> review_app option \<Rightarrow> 'w run_state \<Rightarrow> (js_error + bool) \<times> 'w run_state" where
  \<open>checkBuildStatusForReviewApp c p app s =
     (case app of
        None \<Rightarrow> (Inl null_status_fault, s)
      | Some a \<Rightarrow>
          if ra_status a = ''pending'' \<or> ra_status a = ''creating'' then (Inr False, s)
          else if ra_status a = ''deleting'' then (Inr False, s)
          else
            (case ra_app a of
               None \<Rightarrow> (Inl (Error (''Unexpected app status: "'' @ ra_status a @ ''"'')), s)
             | Some appId \<Rightarrow>
                 (let url = ''/apps/'' @ appId @ ''/builds'';
                      (r, w) = get_builds p url (world s);
                      s' = emit (GetBuilds url r) w s
                  in (case r of
                        Inl e \<Rightarrow> (Inl e, s')
                      | Inr latestBuilds \<Rightarrow>
                          (case find (\<lambda>b. version c = source_blob_version b) latestBuilds of
                             None \<Rightarrow> (Inl undefined_status_fault, s')
                           | Some b \<Rightarrow>
                               (if build_status b = ''succeeded'' then (Inr True, s')
                                else if build_status b = ''pending'' then (Inr False, s')
                                else
                                  (Inl (Error (''Unexpected build status: "'' @ ra_status a @ ''": ''
                                               @ errorDetail (ra_error_status a))), s')))))))\<close>

text \<open>
  The \<open>do ... while (!isFinished)\<close> loop of lines 151 to 161, at most \<open>n\<close> iterations. It
  returns the review app of the last iteration.
\<close>

fun watch_loop ::
  "nat \<Rightarrow> pr_context \<Rightarrow> 'w platform \<Rightarrow> 'w run_state \<Rightarrow> (review_app option) outcome \<times> 'w run_state" where
  "watch_loop 0 c p s = (None, s)"
| "watch_loop (Suc n) c p s =
     (case findReviewApp c p s of
        (Inl e, s1) \<Rightarrow> (Some (Inl e), s1)
      | (Inr reviewApp, s1) \<Rightarrow>
          (case checkBuildStatusForReviewApp c p reviewApp s1 of
             (Inl e, s2) \<Rightarrow> (Some (Inl e), s2)
           | (Inr isFinished, s2) \<Rightarrow>
               let s3 = waitSeconds 5 s2
               in if \<not> isFinished then watch_loop n c p s3 else (Some (Inr reviewApp), s3)))"

text \<open>
  \<open>waitReviewAppUpdated\<close> (lines 85 to 166): one locate and check before the loop
  (lines 143 to 145), the loop, then \<open>getAppDetails(reviewApp.app.id)\<close>.
\<close>

definition waitReviewAppUpdated ::
  "nat \<Rightarrow> pr_context \<Rightarrow> 'w platform \<Rightarrow> 'w run_state \<Rightarrow> app_details outcome \<times> 'w run_state" where
  "waitReviewAppUpdated n c p s =
     (case findReviewApp c p s of
        (Inl e, s1) \<Rightarrow> (Some (Inl e), s1)
      | (Inr reviewApp0, s1) \<Rightarrow>
          (case checkBuildStatusForReviewApp c p reviewApp0 s1 of
             (Inl e, s2) \<Rightarrow> (Some (Inl e), s2)
           | (Inr isFinished0, s2) \<Rightarrow>
               (case watch_loop n c p s2 of
                  (None, s3) \<Rightarrow> (None, s3)
                | (Some (Inl e), s3) \<Rightarrow> (Some (Inl e), s3)
                | (Some (Inr reviewApp), s3) \<Rightarrow>
                    (case reviewApp of
                       None \<Rightarrow> (Some (Inl (TypeError ''Cannot read properties of null (reading 'app')'')), s3)
                     | Some a \<Rightarrow>
                         (case ra_app a of
                            None \<Rightarrow>
                              (Some (Inl (TypeError ''Cannot read properties of null (reading 'id')'')), s3)
                          | Some appId \<Rightarrow>
                              (case getAppDetails p appId s3 of
                                 (r, s4) \<Rightarrow> (Some r, s4)))))))"

text \<open>
  The request body of lines 183 to 195, with \<open>forkRepoId\<close> of line 47, and the argument of
  the archive request (lines 173 to 177).
\<close>

definition forkRepoId :: "pr_context \<Rightarrow> nat option" where
  "forkRepoId c = (if forkRepo c then Some (repoId c) else None)"

definition create_request :: "pr_context \<Rightarrow> string \<Rightarrow> create_body" where
  "create_request c archiveUrl =
     \<lparr>body_branch = branch c,
      body_pipeline = herokuPipelineId c,
      body_source_blob_url = archiveUrl,
      body_source_blob_version = version c,
      fork_repo_id = forkRepoId c,
      body_pr_number = prNumber c,
      body_GIT_REPO_URL = repoHtmlUrl c\<rparr>"

text \<open>The \<open>try\<close> block of \<open>createReviewApp\<close> (lines 170 to 201).\<close>

definition archiveBody :: "pr_context \<Rightarrow> archive_body" where
  "archiveBody c = \<lparr>archive_owner = repoOwner c, archive_repo = repoName c, archive_ref = version c\<rparr>"

definition createReviewApp_try ::
  "pr_context \<Rightarrow> 'w platform \<Rightarrow> 'w run_state \<Rightarrow> (js_error + review_app) \<times> 'w run_state" where
  "createReviewApp_try c p s =
     (let (r1, w1) = downloadTarballArchive p (archiveBody c) (world s);
          s1 = emit (DownloadTarball (archiveBody c) r1) w1 s
      in case r1 of
           Inl e \<Rightarrow> (Inl e, s1)
         | Inr archiveUrl \<Rightarrow>
             let body = create_request c archiveUrl;
                 (r2, w2) = post_review_apps p body (world s1)
             in (r2, emit (PostReviewApps body r2) w2 s1))"

text \<open>\<open>createReviewApp\<close> (lines 168 to 218): the \<open>try\<close> block and its \<open>catch\<close>.\<close>

definition conflict_warning :: annotation where
  "conflict_warning = Warning ''Review app now seems to exist after previously not...''"

definition createReviewApp ::
  "pr_context \<Rightarrow> 'w platform \<Rightarrow> 'w run_state \<Rightarrow> (js_error + review_app) \<times> 'w run_state" where
  "createReviewApp c p s =
     (case createReviewApp_try c p s of
        (Inr app, s1) \<Rightarrow> (Inr app, s1)
      | (Inl err, s1) \<Rightarrow>
          (if statusCode err \<noteq> Some 409 then (Inl err, s1)
           else
             (let s2 = annotate conflict_warning s1
              in (case findReviewApp c p s2 of
                    (Inl e, s3) \<Rightarrow> (Inl e, s3)
                  | (Inr None, s3) \<Rightarrow> (Inl (Error ''Previously got status 409 but no app found''), s3)
                  | (Inr (Some app), s3) \<Rightarrow> (Inr app, s3)))))"

subsection \<open>The body of \<open>run\<close>\<close>

text \<open>
  The \<open>do ... while (destroyStatus === 'deleting')\<close> loop of lines 267 to 281, at most \<open>n\<close>
  iterations; \<open>destroyStatus\<close> is the loop's variable, assigned only when the locator found a
  review app (lines 276 to 278). The assignment of line 268 is to a variable that \<open>run\<close> does
  not declare; the file is a CommonJS module without a strict-mode directive, where that
  creates a global instead of throwing.
\<close>

fun destroy_wait ::
  "nat \<Rightarrow> pr_context \<Rightarrow> 'w platform \<Rightarrow> string \<Rightarrow> 'w run_state \<Rightarrow> unit outcome \<times> 'w run_state" where
  "destroy_wait 0 c p destroyStatus s = (None, s)"
| "destroy_wait (Suc n) c p destroyStatus s =
     (case findReviewApp c p s of
        (Inl e, s1) \<Rightarrow> (Some (Inl e), s1)
      | (Inr reviewApp, s1) \<Rightarrow>
          let destroyStatus' = (case reviewApp of Some a \<Rightarrow> ra_status a | None \<Rightarrow> destroyStatus);
              s2 = waitSeconds 5 s1
          in if destroyStatus' = ''deleting'' then destroy_wait n c p destroyStatus' s2
             else (Some (Inr ()), s2))"

text \<open>
  Lines 259 to 282, entered with the review app that line 258 found: the delete request on
  \<open>/apps/${app.id}\<close>, whose rejection is caught and reported as a notice, then the loop.
\<close>

definition destroy_existing ::
  "nat \<Rightarrow> pr_context \<Rightarrow> 'w platform \<Rightarrow> review_app \<Rightarrow> 'w run_state \<Rightarrow> unit outcome \<times> 'w run_state" where
  "destroy_existing n c p app s =
     (let url = ''/apps/'' @ ra_id app;
          (r, w) = delete_url p url (world s);
          s1 = emit (Delete url r) w s;
          s2 = (case r of
                  Inl err \<Rightarrow> annotate (Notice (''Error destroying app: '' @ toString err)) s1
                | Inr u \<Rightarrow> s1)
      in destroy_wait n c p ''deleting'' s2)"

text \<open>Lines 284 to 287.\<close>

definition create_and_watch ::
  "nat \<Rightarrow> pr_context \<Rightarrow> 'w platform \<Rightarrow> 'w run_state \<Rightarrow> unit outcome \<times> 'w run_state" where
  "create_and_watch n c p s =
     (case createReviewApp c p s of
        (Inl e, s1) \<Rightarrow> (Some (Inl e), s1)
      | (Inr created, s1) \<Rightarrow>
          (case waitReviewAppUpdated n c p s1 of
             (None, s2) \<Rightarrow> (None, s2)
           | (Some (Inl e), s2) \<Rightarrow> (Some (Inl e), s2)
           | (Some (Inr updatedApp), s2) \<Rightarrow> (Some (Inr ()), outputAppDetails updatedApp s2)))"

text \<open>Lines 242 to 256, the branch of a closed pull request.\<close>

definition close_review_app ::
  "pr_context \<Rightarrow> 'w platform \<Rightarrow> 'w run_state \<Rightarrow> (js_error + unit) \<times> 'w run_state" where
  \<open>close_review_app c p s =
     (case findReviewApp c p s of
        (Inl e, s1) \<Rightarrow> (Inl e, s1)
      | (Inr (Some app), s1) \<Rightarrow>
          let url = ''/review-apps/'' @ ra_id app;
              (r, w) = delete_url p url (world s1)
          in (r, emit (Delete url r) w s1)
      | (Inr None, s1) \<Rightarrow>
          (Inr (),
           setFailed (''Action "closed", yet no existing review app for PR #'' @ string_of_nat (prNumber c))
             (annotate (ErrorMsg (''Could not find review app for PR #'' @ string_of_nat (prNumber c))) s1)))\<close>

text \<open>Lines 258 to 287, the branch of an opened or updated pull request.\<close>

definition reconcile ::
  "nat \<Rightarrow> pr_context \<Rightarrow> 'w platform \<Rightarrow> 'w run_state \<Rightarrow> unit outcome \<times> 'w run_state" where
  "reconcile n c p s =
     (case findReviewApp c p s of
        (Inl e, s1) \<Rightarrow> (Some (Inl e), s1)
      | (Inr None, s1) \<Rightarrow> create_and_watch n c p s1
      | (Inr (Some app), s1) \<Rightarrow>
          (case destroy_existing n c p app s1 of
             (None, s2) \<Rightarrow> (None, s2)
           | (Some (Inl e), s2) \<Rightarrow> (Some (Inl e), s2)
           | (Some (Inr u), s2) \<Rightarrow> create_and_watch n c p s2))"

text \<open>The \<open>try\<close> block of \<open>run\<close> from line 42 on.\<close>

definition run_try ::
  "nat \<Rightarrow> pr_context \<Rightarrow> 'w platform \<Rightarrow> 'w run_state \<Rightarrow> unit outcome \<times> 'w run_state" where
  "run_try n c p s =
     (if eventName c \<noteq> VALID_EVENT
      then (Some (Inl (Error (''Unexpected github event trigger: '' @ eventName c))), s)
      else if forkRepo c
      then (Some (Inr ()), annotate (Notice ''No secrets are available for PRs in forked repos.'') s)
      else if action c = ''closed''
      then (case close_review_app c p s of (r, s1) \<Rightarrow> (Some r, s1))
      else reconcile n c p s)"

text \<open>
  \<open>run\<close> (lines 10 to 292): whatever the \<open>try\<close> block throws is caught, reported with
  \<open>core.error\<close> and turned into a failed run. The first component is \<open>None\<close> when a polling
  loop was still running after \<open>n\<close> iterations, \<open>Some ()\<close> when \<open>run\<close> returned.
\<close>

definition run :: "nat \<Rightarrow> pr_context \<Rightarrow> 'w platform \<Rightarrow> 'w run_state \<Rightarrow> unit option \<times> 'w run_state" where
  "run n c p s =
     (case run_try n c p s of
        (None, s1) \<Rightarrow> (None, s1)
      | (Some (Inl err), s1) \<Rightarrow> (Some (), setFailed (message err) (annotate (ErrorMsg (toString err)) s1))
      | (Some (Inr u), s1) \<Rightarrow> (Some (), s1))"

subsection \<open>Predicates on the list of calls\<close>

text \<open>
  The create request is \<open>heroku.post('/review-apps')\<close> (line 197). The requests that only
  the build watcher makes are the build list of line 106 and the application details of
  line 165.
\<close>

definition is_create :: "event \<Rightarrow> bool" where
  "is_create e = (case e of PostReviewApps b x \<Rightarrow> True | _ \<Rightarrow> False)"

definition is_watch :: "event \<Rightarrow> bool" where
  "is_watch e = (case e of GetBuilds u x \<Rightarrow> True | GetApp u x \<Rightarrow> True | _ \<Rightarrow> False)"

text \<open>
  \<open>settled c evs\<close>: the events end with a list request that showed the pull request's review
  app in a status other than \<open>deleting\<close>, followed by the sleep of line 280.
\<close>

definition settled :: "pr_context \<Rightarrow> event list \<Rightarrow> bool" where
  "settled c evs =
     (\<exists>evs' reviewApps a.
        evs = evs' @ [GetReviewApps (apiUrl c) (Inr reviewApps), WaitSeconds 5] \<and>
        find (\<lambda>app. ra_pr_number app = prNumber c) reviewApps = Some a \<and>
        ra_status a \<noteq> ''deleting'')"

text \<open>
  \<open>issued c evs\<close>: the events start with the answered archive request and the create
  request built from its answer, and hold no other create request.
\<close>

definition issued :: "pr_context \<Rightarrow> event list \<Rightarrow> bool" where
  "issued c evs =
     (\<exists>url x rest.
        evs = [DownloadTarball (archiveBody c) (Inr url), PostReviewApps (create_request c url) x] @ rest \<and>
        (\<forall>e\<in>set rest. \<not> is_create e))"

subsection \<open>Reaching the create request\<close>

text \<open>
  \<open>reaches_create n c p s s0\<close>: started in state \<open>s\<close>, \<open>run\<close> takes the branch of an opened
  or updated pull request and gets to line 284 in state \<open>s0\<close>, either because line 258 found
  no review app or because the wait of lines 267 to 281 came to its end.
\<close>

definition reaches_create ::
  "nat \<Rightarrow> pr_context \<Rightarrow> 'w platform \<Rightarrow> 'w run_state \<Rightarrow> 'w run_state \<Rightarrow> bool" where
  "reaches_create n c p s s0 =
     (eventName c = VALID_EVENT \<and> \<not> forkRepo c \<and> action c \<noteq> ''closed'' \<and>
      (case findReviewApp c p s of
         (Inl e, s1) \<Rightarrow> False
       | (Inr None, s1) \<Rightarrow> s0 = s1
       | (Inr (Some app), s1) \<Rightarrow> destroy_existing n c p app s1 = (Some (Inr ()), s0)))"

subsection \<open>A scripted platform for concrete runs\<close>

text \<open>
  The state of this platform counts the list requests it has answered; the \<open>k\<close>-th list
  request (from 0) is answered with \<open>feed k\<close>. Every application has the same build list,
  every delete and archive request succeeds, and the create request is answered with
  \<open>created\<close>.
\<close>

definition scripted_platform ::
  "(nat \<Rightarrow> review_app list) \<Rightarrow> build list \<Rightarrow> (js_error + review_app) \<Rightarrow> nat platform" where
  "scripted_platform feed builds created =
     \<lparr>get_review_apps = (\<lambda>url w. (Inr (feed w), Suc w)),
      get_builds = (\<lambda>url w. (Inr builds, w)),
      get_app = (\<lambda>url w. (Inr \<lparr>app_id = drop 6 url, web_url = ''https://app.example''\<rparr>, w)),
      delete_url = (\<lambda>url w. (Inr (), w)),
      post_review_apps = (\<lambda>body w. (created, w)),
      downloadTarballArchive = (\<lambda>body w. (Inr ''https://archive.example/tarball'', w))\<rparr>"

definition pr42 :: pr_context where
  "pr42 = \<lparr>herokuPipelineId = ''pipe'', action = ''synchronize'', eventName = ''pull_request'',
           branch = ''feature'', version = ''def456'', repoId = 7, forkRepo = False,
           repoHtmlUrl = ''https://git.example/o/r'', prNumber = 42, repoOwner = ''o'',
           repoName = ''r'', baseRepoFork = False, payloadAction = ''synchronize''\<rparr>"

definition app1 :: "string \<Rightarrow> review_app" where
  "app1 st = \<lparr>ra_id = ''ra-1'', ra_pr_number = 42, ra_status = st, ra_app = Some ''app-1'',
              ra_error_status = None\<rparr>"

definition build_v :: "string \<Rightarrow> string \<Rightarrow> build" where
  "build_v v st = \<lparr>source_blob_version = v, build_status = st\<rparr>"

definition errored_app :: review_app where
  "errored_app = \<lparr>ra_id = ''ra-1'', ra_pr_number = 42, ra_status = ''errored'', ra_app = Some ''app-1'',
                  ra_error_status = Some ''slug compile failed''\<rparr>"

text \<open>The review app of the pull request is always listed; the build list is \<open>bs\<close>.\<close>

definition builds_platform :: "build list \<Rightarrow> nat platform" where
  "builds_platform bs = scripted_platform (\<lambda>k. [app1 ''created'']) bs (Inr (app1 ''creating''))"

text \<open>
  No review app at first, then one whose application only has a build of an older commit.
\<close>

definition stale_build_platform :: "nat platform" where
  "stale_build_platform =
     scripted_platform (\<lambda>k. if k = 0 then [] else [app1 ''created''])
       [build_v ''abc123'' ''succeeded''] (Inr (app1 ''creating''))"

text \<open>The review app is listed once and is gone from every later list.\<close>

definition vanishing_platform :: "nat platform" where
  "vanishing_platform =
     scripted_platform (\<lambda>k. if k = 0 then [app1 ''created''] else []) [] (Inr (app1 ''creating''))"

text \<open>
  The create request is rejected with status 409; a review app is listed from the second list
  request on.
\<close>

definition conflict_platform :: "nat platform" where
  "conflict_platform =
     scripted_platform (\<lambda>k. if k = 0 then [] else [app1 ''created''])
       [build_v ''def456'' ''succeeded''] (Inl (JsError ''Error'' ''Conflict'' (Some 409)))"

text \<open>
  A review app exists, shows \<open>deleting\<close> at the first poll after the destroy request and a
  status other than \<open>deleting\<close> from then on; the build of the commit has succeeded.
\<close>

definition recreate_platform :: "nat platform" where
  "recreate_platform =
     scripted_platform (\<lambda>k. if k = 1 then [app1 ''deleting''] else [app1 ''created''])
       [build_v ''def456'' ''succeeded''] (Inr (app1 ''creating''))"



text \<open>
  The event of closing the pull request of \<open>pr42\<close>, handled by a step that has no \<open>id\<close>, so
  that its name is derived from the action's repository.
\<close>

definition closed_pr :: pr_context where
  "closed_pr = pr42\<lparr>action := ''__rodrigoea_pr-heroku-review-app'', payloadAction := ''closed''\<rparr>"

text \<open>
  No review app for the pull request until one is created; then it is listed and the build
  of the commit has succeeded.
\<close>

definition fresh_platform :: "nat platform" where
  "fresh_platform =
     scripted_platform (\<lambda>k. if k = 0 then [] else [app1 ''created''])
       [build_v ''def456'' ''succeeded''] (Inr (app1 ''creating''))"

text \<open>The pull request of \<open>pr42\<close>, opened against a repository that is itself a fork.\<close>

definition base_fork_pr :: pr_context where
  "base_fork_pr = pr42\<lparr>baseRepoFork := True\<rparr>"

section \<open>Properties\<close>

subsection \<open>Shared facts\<close>

lemma run_try_reaches_create:
  "reaches_create n c p s s0 \<Longrightarrow> run_try n c p s = create_and_watch n c p s0"
  by (auto simp: reaches_create_def run_try_def reconcile_def
      split: prod.splits sum.splits option.splits)


lemma world_emit: "world (emit e w s) = w"
  by (simp add: emit_def)

lemma calls_emit: "calls (emit e w s) = calls s @ [e]"
  by (simp add: emit_def)

lemma calls_annotate: "calls (annotate a s) = calls s"
  by (simp add: annotate_def)

lemma calls_waitSeconds: "calls (waitSeconds k s) = calls s @ [WaitSeconds k]"
  by (simp add: waitSeconds_def)

lemma calls_setFailed: "calls (setFailed m s) = calls s"
  by (simp add: setFailed_def annotate_def)

lemma calls_outputAppDetails: "calls (outputAppDetails a s) = calls s"
  by (simp add: outputAppDetails_def setOutput_def)

lemma settledI:
  "find (\<lambda>app. ra_pr_number app = prNumber c) reviewApps = Some a \<Longrightarrow> ra_status a \<noteq> ''deleting'' \<Longrightarrow>
   settled c (evs' @ [GetReviewApps (apiUrl c) (Inr reviewApps), WaitSeconds 5])"
  unfolding settled_def by blast

lemma settled_prepend: "settled c evs \<Longrightarrow> settled c (h @ evs)"
proof -
  assume "settled c evs"
  then obtain evs' reviewApps a where
    e: "evs = evs' @ [GetReviewApps (apiUrl c) (Inr reviewApps), WaitSeconds 5]"
    and f: "find (\<lambda>app. ra_pr_number app = prNumber c) reviewApps = Some a" "ra_status a \<noteq> ''deleting''"
    unfolding settled_def by blast
  from settledI [OF f, of "h @ evs'"] e show ?thesis by simp
qed

lemma issued_append:
  "issued c evs \<Longrightarrow> \<forall>e\<in>set rest. \<not> is_create e \<Longrightarrow> issued c (evs @ rest)"
proof -
  assume "issued c evs" and rest: "\<forall>e\<in>set rest. \<not> is_create e"
  then obtain url x rest0 where
    "evs = [DownloadTarball (archiveBody c) (Inr url), PostReviewApps (create_request c url) x] @ rest0"
    "\<forall>e\<in>set rest0. \<not> is_create e"
    unfolding issued_def by blast
  with rest have
    "evs @ rest = [DownloadTarball (archiveBody c) (Inr url), PostReviewApps (create_request c url) x]
                @ (rest0 @ rest) \<and> (\<forall>e\<in>set (rest0 @ rest). \<not> is_create e)" by auto
  then show ?thesis unfolding issued_def by blast
qed

lemma findReviewApp_calls:
  assumes "findReviewApp c p s = (r, s')"
  shows "\<exists>x. calls s' = calls s @ [GetReviewApps (apiUrl c) x] \<and>
             r = (case x of Inl e \<Rightarrow> Inl e
                  | Inr reviewApps \<Rightarrow> Inr (find (\<lambda>app. ra_pr_number app = prNumber c) reviewApps))"
proof -
  obtain x w where g: "get_review_apps p (apiUrl c) (world s) = (x, w)"
    by (cases "get_review_apps p (apiUrl c) (world s)")
  with assms show ?thesis
    by (intro exI [of _ x]) (auto simp: findReviewApp_def calls_emit split: sum.splits)
qed

lemma check_calls:
  assumes "checkBuildStatusForReviewApp c p app s = (r, s')"
  shows "calls s' = calls s \<or> (\<exists>u x. calls s' = calls s @ [GetBuilds u x])"
  using assms
  by (auto simp: checkBuildStatusForReviewApp_def Let_def calls_emit
      split: option.splits prod.splits sum.splits if_splits)

lemma getAppDetails_calls:
  assumes "getAppDetails p i s = (r, s')"
  shows "\<exists>u x. calls s' = calls s @ [GetApp u x]"
  using assms by (auto simp: getAppDetails_def Let_def calls_emit split: prod.splits)

lemma watch_iteration_calls:
  assumes f: "findReviewApp c p s = (Inr reviewApp, s1)"
    and k: "checkBuildStatusForReviewApp c p reviewApp s1 = (r, s2)"
  shows "\<exists>evs. calls s2 = calls s @ evs \<and> (\<forall>e\<in>set evs. \<not> is_create e)"
proof -
  from findReviewApp_calls [OF f] obtain x where x: "calls s1 = calls s @ [GetReviewApps (apiUrl c) x]"
    by blast
  from check_calls [OF k] x show ?thesis
    by (auto simp: is_create_def)
qed

lemma watch_loop_calls:
  "watch_loop n c p s = (r, s') \<Longrightarrow>
     \<exists>evs. calls s' = calls s @ evs \<and> (\<forall>e\<in>set evs. \<not> is_create e)"
proof (induction n arbitrary: s)
  case 0
  then show ?case by simp
next
  case (Suc n)
  obtain r1 s1 where f: "findReviewApp c p s = (r1, s1)" by (cases "findReviewApp c p s")
  show ?case
  proof (cases r1)
    case (Inl e)
    with f Suc.prems have "s' = s1" by simp
    with findReviewApp_calls [OF f] show ?thesis by (auto simp: is_create_def)
  next
    case (Inr reviewApp)
    obtain r2 s2 where k: "checkBuildStatusForReviewApp c p reviewApp s1 = (r2, s2)"
      by (cases "checkBuildStatusForReviewApp c p reviewApp s1")
    from watch_iteration_calls [OF f [unfolded Inr] k]
    obtain evs where evs: "calls s2 = calls s @ evs" "\<forall>e\<in>set evs. \<not> is_create e" by blast
    show ?thesis
    proof (cases r2)
      case (Inl e)
      with f Inr k Suc.prems have "s' = s2" by simp
      with evs show ?thesis by blast
    next
      case isF: (Inr isFinished)
      show ?thesis
      proof (cases isFinished)
        case True
        with f Inr k isF Suc.prems have "s' = waitSeconds 5 s2" by simp
        with evs show ?thesis by (auto simp: calls_waitSeconds is_create_def)
      next
        case False
        with f Inr k isF Suc.prems have "watch_loop n c p (waitSeconds 5 s2) = (r, s')" by simp
        from Suc.IH [OF this] obtain evs' where
          "calls s' = calls (waitSeconds 5 s2) @ evs'" "\<forall>e\<in>set evs'. \<not> is_create e" by blast
        with evs show ?thesis by (auto simp: calls_waitSeconds is_create_def)
      qed
    qed
  qed
qed

lemma waitReviewAppUpdated_calls:
  assumes "waitReviewAppUpdated n c p s = (r, s')"
  shows "\<exists>evs. calls s' = calls s @ evs \<and> (\<forall>e\<in>set evs. \<not> is_create e)"
proof -
  obtain r1 s1 where f: "findReviewApp c p s = (r1, s1)" by (cases "findReviewApp c p s")
  show ?thesis
  proof (cases r1)
    case (Inl e)
    with f assms have "s' = s1" by (simp add: waitReviewAppUpdated_def)
    with findReviewApp_calls [OF f] show ?thesis by (auto simp: is_create_def)
  next
    case (Inr reviewApp0)
    obtain r2 s2 where k: "checkBuildStatusForReviewApp c p reviewApp0 s1 = (r2, s2)"
      by (cases "checkBuildStatusForReviewApp c p reviewApp0 s1")
    from watch_iteration_calls [OF f [unfolded Inr] k]
    obtain evs where evs: "calls s2 = calls s @ evs" "\<forall>e\<in>set evs. \<not> is_create e" by blast
    show ?thesis
    proof (cases r2)
      case (Inl e)
      with f Inr k assms have "s' = s2" by (simp add: waitReviewAppUpdated_def)
      with evs show ?thesis by blast
    next
      case isF: (Inr isFinished0)
      obtain r3 s3 where l: "watch_loop n c p s2 = (r3, s3)" by (cases "watch_loop n c p s2")
      from watch_loop_calls [OF l] obtain evs' where
        evs': "calls s3 = calls s2 @ evs'" "\<forall>e\<in>set evs'. \<not> is_create e" by blast
      have "s' = s3 \<or> (\<exists>u x. calls s' = calls s3 @ [GetApp u x])"
        using assms f Inr k isF l
        by (auto simp: waitReviewAppUpdated_def dest: getAppDetails_calls
            split: option.splits sum.splits prod.splits)
      with evs evs' show ?thesis by (auto simp: is_create_def)
    qed
  qed
qed

lemma destroy_wait_calls:
  "destroy_wait n c p ''deleting'' s = (r, s') \<Longrightarrow>
     \<exists>evs. calls s' = calls s @ evs \<and> (\<forall>e\<in>set evs. \<not> is_create e \<and> \<not> is_watch e) \<and>
           (r = Some (Inr ()) \<longrightarrow> settled c evs)"
proof (induction n arbitrary: s)
  case 0
  then show ?case by simp
next
  case (Suc n)
  obtain r1 s1 where f: "findReviewApp c p s = (r1, s1)" by (cases "findReviewApp c p s")
  from findReviewApp_calls [OF f] obtain x where
    x: "calls s1 = calls s @ [GetReviewApps (apiUrl c) x]"
       "r1 = (case x of Inl e \<Rightarrow> Inl e
              | Inr reviewApps \<Rightarrow> Inr (find (\<lambda>app. ra_pr_number app = prNumber c) reviewApps))"
    by blast
  show ?case
  proof (cases r1)
    case (Inl e)
    with f Suc.prems have "s' = s1" "r = Some (Inl e)" by simp_all
    with x show ?thesis by (auto simp: is_create_def is_watch_def)
  next
    case (Inr reviewApp)
    define d' where "d' = (case reviewApp of Some a \<Rightarrow> ra_status a | None \<Rightarrow> ''deleting'')"
    show ?thesis
    proof (cases "d' = ''deleting''")
      case True
      with f Inr Suc.prems have "destroy_wait n c p ''deleting'' (waitSeconds 5 s1) = (r, s')"
        by (simp add: d'_def)
      from Suc.IH [OF this] obtain evs where
        evs: "calls s' = calls (waitSeconds 5 s1) @ evs"
             "\<forall>e\<in>set evs. \<not> is_create e \<and> \<not> is_watch e"
             "r = Some (Inr ()) \<longrightarrow> settled c evs" by blast
      let ?h = "[GetReviewApps (apiUrl c) x, WaitSeconds 5]"
      have 1: "calls s' = calls s @ (?h @ evs)"
        using evs(1) x(1) by (simp add: calls_waitSeconds)
      have 2: "\<forall>e\<in>set (?h @ evs). \<not> is_create e \<and> \<not> is_watch e"
        using evs(2) by (auto simp: is_create_def is_watch_def)
      have 3: "r = Some (Inr ()) \<longrightarrow> settled c (?h @ evs)"
        using evs(3) settled_prepend by blast
      from 1 2 3 show ?thesis by blast
    next
      case False
      with f Inr Suc.prems have rs: "s' = waitSeconds 5 s1" "r = Some (Inr ())"
        by (simp_all add: d'_def)
      from False obtain a where a: "reviewApp = Some a" "ra_status a \<noteq> ''deleting''"
        by (cases reviewApp) (simp_all add: d'_def)
      from x(2) Inr a obtain reviewApps where
        ra: "x = Inr reviewApps" "find (\<lambda>app. ra_pr_number app = prNumber c) reviewApps = Some a"
        by (cases x) simp_all
      let ?evs = "[] @ [GetReviewApps (apiUrl c) (Inr reviewApps), WaitSeconds 5]"
      have 1: "calls s' = calls s @ ?evs"
        using rs x(1) ra(1) by (simp add: calls_waitSeconds)
      have 2: "\<forall>e\<in>set ?evs. \<not> is_create e \<and> \<not> is_watch e"
        by (simp add: is_create_def is_watch_def)
      have 3: "settled c ?evs" using ra(2) a(2) by (rule settledI)
      from 1 2 3 show ?thesis by blast
    qed
  qed
qed

lemma destroy_existing_calls:
  assumes "destroy_existing n c p app s = (r, s')"
  shows "\<exists>evs. calls s' = calls s @ evs \<and> (\<forall>e\<in>set evs. \<not> is_create e \<and> \<not> is_watch e) \<and>
               (r = Some (Inr ()) \<longrightarrow> settled c evs)"
proof -
  obtain x w where d: "delete_url p (''/apps/'' @ ra_id app) (world s) = (x, w)"
    by (cases "delete_url p (''/apps/'' @ ra_id app) (world s)")
  define s2 where "s2 = (case x of
          Inl err \<Rightarrow> annotate (Notice (''Error destroying app: '' @ toString err))
                      (emit (Delete (''/apps/'' @ ra_id app) x) w s)
        | Inr u \<Rightarrow> emit (Delete (''/apps/'' @ ra_id app) x) w s)"
  have c2: "calls s2 = calls s @ [Delete (''/apps/'' @ ra_id app) x]"
    by (simp add: s2_def calls_emit calls_annotate split: sum.splits)
  from assms d have "destroy_wait n c p ''deleting'' s2 = (r, s')"
    by (cases x) (simp_all add: destroy_existing_def s2_def Let_def)
  from destroy_wait_calls [OF this] obtain evs where
    evs: "calls s' = calls s2 @ evs"
         "\<forall>e\<in>set evs. \<not> is_create e \<and> \<not> is_watch e"
         "r = Some (Inr ()) \<longrightarrow> settled c evs" by blast
  let ?h = "[Delete (''/apps/'' @ ra_id app) x]"
  have 1: "calls s' = calls s @ (?h @ evs)" using evs(1) c2 by simp
  have 2: "\<forall>e\<in>set (?h @ evs). \<not> is_create e \<and> \<not> is_watch e"
    using evs(2) by (auto simp: is_create_def is_watch_def)
  have 3: "r = Some (Inr ()) \<longrightarrow> settled c (?h @ evs)"
    using evs(3) settled_prepend by blast
  from 1 2 3 show ?thesis by blast
qed

lemma createReviewApp_try_calls:
  assumes "createReviewApp_try c p s = (r, s')"
  shows "(\<exists>e. r = Inl e \<and> calls s' = calls s @ [DownloadTarball (archiveBody c) (Inl e)]) \<or>
         (\<exists>url. calls s' = calls s @ [DownloadTarball (archiveBody c) (Inr url),
                                       PostReviewApps (create_request c url) r])"
proof -
  obtain r1 w1 where d: "downloadTarballArchive p (archiveBody c) (world s) = (r1, w1)"
    by (cases "downloadTarballArchive p (archiveBody c) (world s)")
  show ?thesis
  proof (cases r1)
    case (Inl e)
    with assms d show ?thesis by (auto simp: createReviewApp_try_def calls_emit)
  next
    case (Inr url)
    obtain r2 w2 where q: "post_review_apps p (create_request c url) w1 = (r2, w2)"
      by (cases "post_review_apps p (create_request c url) w1")
    with assms d Inr show ?thesis
      by (auto simp: createReviewApp_try_def calls_emit emit_def)
  qed
qed

lemma createReviewApp_calls:
  assumes "createReviewApp c p s = (r, s')"
  shows "\<exists>evs. calls s' = calls s @ evs \<and> (\<forall>e\<in>set evs. \<not> is_watch e) \<and>
               ((\<forall>e\<in>set evs. \<not> is_create e) \<or> issued c evs)"
proof -
  obtain r1 s1 where t: "createReviewApp_try c p s = (r1, s1)"
    by (cases "createReviewApp_try c p s")
  from createReviewApp_try_calls [OF t] obtain evs where
    evs: "calls s1 = calls s @ evs" "\<forall>e\<in>set evs. \<not> is_watch e"
         "(\<forall>e\<in>set evs. \<not> is_create e) \<or> issued c evs"
    unfolding issued_def by (auto simp: is_create_def is_watch_def)
  have "s' = s1 \<or> (\<exists>x. calls s' = calls s1 @ [GetReviewApps (apiUrl c) x])"
  proof (cases r1)
    case (Inr app)
    with assms t show ?thesis by (simp add: createReviewApp_def)
  next
    case (Inl err)
    show ?thesis
    proof (cases "statusCode err \<noteq> Some 409")
      case True
      with assms t Inl show ?thesis by (simp add: createReviewApp_def)
    next
      case False
      let ?s2 = "annotate conflict_warning s1"
      obtain r3 s3 where f: "findReviewApp c p ?s2 = (r3, s3)" by (cases "findReviewApp c p ?s2")
      from assms t Inl False f have "s' = s3"
        by (auto simp: createReviewApp_def split: sum.splits option.splits)
      with findReviewApp_calls [OF f] show ?thesis by (auto simp: calls_annotate)
    qed
  qed
  then consider "calls s' = calls s @ evs"
    | x where "calls s' = calls s @ (evs @ [GetReviewApps (apiUrl c) x])"
    using evs(1) by auto
  then show ?thesis
  proof cases
    case 1
    with evs show ?thesis by blast
  next
    case 2
    let ?more = "[GetReviewApps (apiUrl c) x]"
    have nc: "\<forall>e\<in>set ?more. \<not> is_create e" by (simp add: is_create_def)
    have w: "\<forall>e\<in>set (evs @ ?more). \<not> is_watch e"
      using evs(2) by (auto simp: is_watch_def)
    from evs(3) have "(\<forall>e\<in>set (evs @ ?more). \<not> is_create e) \<or> issued c (evs @ ?more)"
      using nc issued_append [OF _ nc] by auto
    with 2 w show ?thesis by blast
  qed
qed

lemma create_and_watch_calls:
  assumes "create_and_watch n c p s = (r, s')"
  shows "\<exists>evs. calls s' = calls s @ evs \<and> ((\<forall>e\<in>set evs. \<not> is_create e) \<or> issued c evs)"
proof -
  obtain r1 s1 where k: "createReviewApp c p s = (r1, s1)" by (cases "createReviewApp c p s")
  from createReviewApp_calls [OF k] obtain evs where
    evs: "calls s1 = calls s @ evs" "(\<forall>e\<in>set evs. \<not> is_create e) \<or> issued c evs" by blast
  show ?thesis
  proof (cases r1)
    case (Inl e)
    with assms k have "s' = s1" by (simp add: create_and_watch_def)
    with evs show ?thesis by blast
  next
    case (Inr app)
    obtain r2 s2 where w: "waitReviewAppUpdated n c p s1 = (r2, s2)"
      by (cases "waitReviewAppUpdated n c p s1")
    from waitReviewAppUpdated_calls [OF w] obtain evs2 where
      evs2: "calls s2 = calls s1 @ evs2" "\<forall>e\<in>set evs2. \<not> is_create e" by blast
    from assms k Inr w have "calls s' = calls s2"
      by (auto simp: create_and_watch_def calls_outputAppDetails split: option.splits sum.splits)
    with evs(1) evs2(1) have 1: "calls s' = calls s @ (evs @ evs2)" by simp
    from evs(2) have "(\<forall>e\<in>set (evs @ evs2). \<not> is_create e) \<or> issued c (evs @ evs2)"
      using evs2(2) issued_append [OF _ evs2(2)] by auto
    with 1 show ?thesis by blast
  qed
qed

lemma close_review_app_calls:
  assumes "close_review_app c p s = (r, s')"
  shows "\<exists>evs. calls s' = calls s @ evs \<and> (\<forall>e\<in>set evs. \<not> is_create e \<and> \<not> is_watch e)"
proof -
  obtain r1 s1 where f: "findReviewApp c p s = (r1, s1)" by (cases "findReviewApp c p s")
  from findReviewApp_calls [OF f] obtain x where
    x: "calls s1 = calls s @ [GetReviewApps (apiUrl c) x]" by blast
  have "calls s' = calls s1 \<or> (\<exists>u d. calls s' = calls s1 @ [Delete u d])"
  proof (cases r1)
    case (Inl err)
    with assms f show ?thesis by (simp add: close_review_app_def)
  next
    case (Inr found)
    show ?thesis
    proof (cases found)
      case None
      with assms f Inr show ?thesis
        by (auto simp: close_review_app_def calls_setFailed calls_annotate)
    next
      case (Some app)
      obtain d w where "delete_url p (''/review-apps/'' @ ra_id app) (world s1) = (d, w)"
        by (cases "delete_url p (''/review-apps/'' @ ra_id app) (world s1)")
      with assms f Inr Some show ?thesis
        by (auto simp: close_review_app_def calls_emit)
    qed
  qed
  with x show ?thesis by (auto simp: is_create_def is_watch_def)
qed

lemma run_try_cases:
  assumes e: "calls s = []"
  shows "(\<exists>s0. reaches_create n c p s s0 \<and>
               (\<forall>e\<in>set (calls s0). \<not> is_create e \<and> \<not> is_watch e) \<and>
               ((\<exists>u d. Delete u d \<in> set (calls s0)) \<longrightarrow> settled c (calls s0))) \<or>
         (\<forall>e\<in>set (calls (snd (run_try n c p s))). \<not> is_create e \<and> \<not> is_watch e)"
proof (cases "eventName c = VALID_EVENT \<and> \<not> forkRepo c \<and> action c \<noteq> ''closed''")
  case False
  have "\<forall>e\<in>set (calls (snd (run_try n c p s))). \<not> is_create e \<and> \<not> is_watch e"
  proof (cases "eventName c \<noteq> VALID_EVENT \<or> forkRepo c")
    case True
    then show ?thesis using e by (auto simp: run_try_def calls_annotate)
  next
    case nf: False
    with False have cl: "action c = ''closed''" by blast
    obtain r1 s1 where k: "close_review_app c p s = (r1, s1)" by (cases "close_review_app c p s")
    from nf cl k have "snd (run_try n c p s) = s1" by (simp add: run_try_def)
    with close_review_app_calls [OF k] e show ?thesis by auto
  qed
  then show ?thesis by blast
next
  case True
  then have rt: "run_try n c p s = reconcile n c p s" by (simp add: run_try_def)
  obtain r1 s1 where f: "findReviewApp c p s = (r1, s1)" by (cases "findReviewApp c p s")
  from findReviewApp_calls [OF f] e obtain x where
    x: "calls s1 = [GetReviewApps (apiUrl c) x]" by auto
  show ?thesis
  proof (cases r1)
    case (Inl err)
    with f rt have "snd (run_try n c p s) = s1" by (simp add: reconcile_def)
    with x show ?thesis by (auto simp: is_create_def is_watch_def)
  next
    case (Inr found)
    show ?thesis
    proof (cases found)
      case None
      with f Inr True have "reaches_create n c p s s1" by (simp add: reaches_create_def)
      with x show ?thesis by (auto simp: is_create_def is_watch_def)
    next
      case (Some app)
      obtain r2 s2 where d: "destroy_existing n c p app s1 = (r2, s2)"
        by (cases "destroy_existing n c p app s1")
      from destroy_existing_calls [OF d] obtain evs where
        evs: "calls s2 = calls s1 @ evs" "\<forall>e\<in>set evs. \<not> is_create e \<and> \<not> is_watch e"
             "r2 = Some (Inr ()) \<longrightarrow> settled c evs" by blast
      have q: "\<forall>e\<in>set (calls s2). \<not> is_create e \<and> \<not> is_watch e"
        using evs(1,2) x by (auto simp: is_create_def is_watch_def)
      show ?thesis
      proof (cases "r2 = Some (Inr ())")
        case False
        with f Inr Some d rt have "snd (run_try n c p s) = s2"
          by (auto simp: reconcile_def split: option.splits sum.splits)
        with q show ?thesis by simp
      next
        case ok: True
        with f Inr Some d True have rc: "reaches_create n c p s s2"
          by (simp add: reaches_create_def)
        from ok evs(1,3) have "settled c (calls s2)" by (simp add: settled_prepend)
        with rc q show ?thesis by blast
      qed
    qed
  qed
qed

lemma calls_run: "calls (snd (run n c p s)) = calls (snd (run_try n c p s))"
  by (simp add: run_def calls_setFailed calls_annotate split: prod.splits option.splits sum.splits)


lemma run_create_shape:
  assumes "PostReviewApps body x \<in> set (calls (snd (run n c p (init w))))"
  obtains s0 url y rest where
    "reaches_create n c p (init w) s0"
    "\<forall>e\<in>set (calls s0). \<not> is_create e \<and> \<not> is_watch e"
    "(\<exists>u d. Delete u d \<in> set (calls s0)) \<longrightarrow> settled c (calls s0)"
    "calls (snd (run n c p (init w))) =
       calls s0 @ [DownloadTarball (archiveBody c) (Inr url),
                   PostReviewApps (create_request c url) y] @ rest"
    "\<forall>e\<in>set rest. \<not> is_create e"
proof -
  have e: "calls (init w) = []" by (simp add: init_def)
  have c: "is_create (PostReviewApps body x)" by (simp add: is_create_def)
  from run_try_cases [OF e, of n c p] assms c obtain s0 where
    s0: "reaches_create n c p (init w) s0"
        "\<forall>e\<in>set (calls s0). \<not> is_create e \<and> \<not> is_watch e"
        "(\<exists>u d. Delete u d \<in> set (calls s0)) \<longrightarrow> settled c (calls s0)"
    unfolding calls_run by blast
  obtain r s' where k: "create_and_watch n c p s0 = (r, s')" by (cases "create_and_watch n c p s0")
  with run_try_reaches_create [OF s0(1)] have f: "calls (snd (run n c p (init w))) = calls s'"
    by (simp add: calls_run)
  from create_and_watch_calls [OF k] obtain evs where
    evs: "calls s' = calls s0 @ evs" "(\<forall>e\<in>set evs. \<not> is_create e) \<or> issued c evs" by blast
  from assms c f evs(1) s0(2) have "\<not> (\<forall>e\<in>set evs. \<not> is_create e)" by auto
  with evs(2) obtain url y rest where
    "evs = [DownloadTarball (archiveBody c) (Inr url), PostReviewApps (create_request c url) y] @ rest"
    "\<forall>e\<in>set rest. \<not> is_create e" unfolding issued_def by blast
  with f evs(1) have
    "calls (snd (run n c p (init w))) =
       calls s0 @ [DownloadTarball (archiveBody c) (Inr url), PostReviewApps (create_request c url) y] @ rest"
    "\<forall>e\<in>set rest. \<not> is_create e" by simp_all
  with s0 show ?thesis by (rule that)
qed

subsection \<open>The wait for the destroyed review app\<close>

text \<open>
  One iteration of the wait loop: a review app in a status other than \<open>deleting\<close> ends the
  loop after the sleep; no review app at all leaves \<open>destroyStatus\<close> as it was and the loop
  goes on.
\<close>

lemma destroy_wait_exits_on_other_status:
  "findReviewApp c p s = (Inr (Some a), s1) \<Longrightarrow> ra_status a \<noteq> ''deleting'' \<Longrightarrow>
   destroy_wait (Suc n) c p destroyStatus s = (Some (Inr ()), waitSeconds 5 s1)"
  by simp

lemma destroy_wait_polls_again_when_absent:
  "findReviewApp c p s = (Inr None, s1) \<Longrightarrow>
   destroy_wait (Suc n) c p ''deleting'' s = destroy_wait n c p ''deleting'' (waitSeconds 5 s1)"
  by simp

lemma destroy_wait_vanished:
  "0 < world s \<Longrightarrow> fst (destroy_wait n pr42 vanishing_platform ''deleting'' s) = None"
proof (induction n arbitrary: s)
  case 0
  then show ?case by simp
next
  case (Suc n)
  have "0 < world (waitSeconds 5 (emit (GetReviewApps (apiUrl pr42) (Inr [])) (Suc (world s)) s))"
    by (simp add: waitSeconds_def world_emit)
  from Suc.IH [OF this] Suc.prems show ?case
    by (simp add: findReviewApp_def vanishing_platform_def scripted_platform_def)
qed

text \<open>
  C1. The claim fails on the code where the locator finds no review app: \<open>destroyStatus\<close>
  then keeps the value \<open>deleting\<close> and the loop polls again. On a platform where the review
  app is listed when line 258 looks for it and is gone from every later list, the wait never
  comes to its end: whatever the number \<open>n\<close> of iterations allowed, \<open>run\<close> is still polling
  after them.
\<close>

theorem C1_destroy_wait_polls_forever_once_app_is_gone:
  "fst (run n pr42 vanishing_platform (init 0)) = None"
proof -
  let ?s1 = "emit (GetReviewApps (apiUrl pr42) (Inr [app1 ''created''])) 1 (init 0)"
  have f: "findReviewApp pr42 vanishing_platform (init 0) = (Inr (Some (app1 ''created'')), ?s1)"
    by (simp add: findReviewApp_def vanishing_platform_def scripted_platform_def app1_def
        pr42_def init_def)
  have d: "fst (destroy_existing n pr42 vanishing_platform (app1 ''created'') ?s1) = None"
    unfolding destroy_existing_def Let_def
    by (simp add: vanishing_platform_def scripted_platform_def world_emit
        destroy_wait_vanished [unfolded vanishing_platform_def scripted_platform_def])
  have r: "fst (reconcile n pr42 vanishing_platform (init 0)) = None"
    using d by (auto simp: reconcile_def f split: prod.splits option.splits sum.splits)
  have t: "run_try n pr42 vanishing_platform (init 0) = reconcile n pr42 vanishing_platform (init 0)"
    by (simp add: run_try_def pr42_def VALID_EVENT_def)
  obtain o1 s1 where "reconcile n pr42 vanishing_platform (init 0) = (o1, s1)"
    by (cases "reconcile n pr42 vanishing_platform (init 0)")
  with r show ?thesis
    by (simp add: run_def t)
qed

subsection \<open>A build list without the commit's build\<close>

lemma check_without_matching_build:
  assumes "ra_status a \<notin> {''pending'', ''creating'', ''deleting''}" and "ra_app a = Some appId"
    and "get_builds p (''/apps/'' @ appId @ ''/builds'') (world s) = (Inr latestBuilds, w)"
    and "find (\<lambda>b. version c = source_blob_version b) latestBuilds = None"
  shows "fst (checkBuildStatusForReviewApp c p (Some a) s) = Inl undefined_status_fault"
  using assms by (simp add: checkBuildStatusForReviewApp_def)

text \<open>
  C2. The claim fails on the code: when no build of the list has the commit's version,
  lines 115 to 121 only print and line 129 reads \<open>status\<close> of \<open>undefined\<close>. With a review app
  that has an application, whose only build is of another commit, the check throws a
  \<open>TypeError\<close> instead of answering "not finished", and the run that gets there ends marked
  failed with that message.
\<close>

theorem C2_missing_build_faults:
  "fst (checkBuildStatusForReviewApp pr42 stale_build_platform (Some (app1 ''created'')) (init 1))
     = Inl undefined_status_fault \<and>
   fst (run 3 pr42 stale_build_platform (init 0)) = Some () \<and>
   failed (snd (run 3 pr42 stale_build_platform (init 0)))
     = Some ''Cannot read properties of undefined (reading 'status')''"
  by code_simp

subsection \<open>A create request that is rejected\<close>

text \<open>The \<open>catch\<close> of \<open>createReviewApp\<close> treats alike whatever its \<open>try\<close> block throws.\<close>

lemma createReviewApp_rethrows:
  "createReviewApp_try c p s = (Inl err, s1) \<Longrightarrow> statusCode err \<noteq> Some 409 \<Longrightarrow>
   createReviewApp c p s = (Inl err, s1)"
  by (simp add: createReviewApp_def)

text \<open>
  C3. Let the archive request succeed and the create request be rejected with \<open>err\<close>. If the
  \<open>statusCode\<close> of \<open>err\<close> is not 409, \<open>createReviewApp\<close> throws \<open>err\<close> itself, having made no
  further call. If it is 409, the locator runs again: when it finds a review app,
  \<open>createReviewApp\<close> returns that app and the outcome of lines 284 to 287 is the outcome of
  the build watcher started from there; when it finds none, \<open>createReviewApp\<close> throws the
  error of line 214 and a run that got to line 284 returns marked failed with its message.
\<close>

theorem C3_create_conflict:
  assumes dl: "downloadTarballArchive p (archiveBody c) (world s) = (Inr archiveUrl, w1)"
    and post: "post_review_apps p (create_request c archiveUrl) w1 = (Inl err, w2)"
    and s1: "s1 = emit (PostReviewApps (create_request c archiveUrl) (Inl err)) w2
                    (emit (DownloadTarball (archiveBody c) (Inr archiveUrl)) w1 s)"
  shows "(statusCode err \<noteq> Some 409 \<longrightarrow> createReviewApp c p s = (Inl err, s1)) \<and>
         (statusCode err = Some 409 \<and>
          findReviewApp c p (annotate conflict_warning s1) = (Inr (Some app), s3) \<longrightarrow>
            createReviewApp c p s = (Inr app, s3) \<and>
            fst (create_and_watch n c p s) =
              map_option (map_sum id (\<lambda>updatedApp. ())) (fst (waitReviewAppUpdated n c p s3))) \<and>
         (statusCode err = Some 409 \<and>
          findReviewApp c p (annotate conflict_warning s1) = (Inr None, s3) \<longrightarrow>
            createReviewApp c p s = (Inl (Error ''Previously got status 409 but no app found''), s3) \<and>
            (reaches_create n c p s00 s \<longrightarrow>
               fst (run n c p s00) = Some () \<and>
               failed (snd (run n c p s00)) = Some ''Previously got status 409 but no app found''))"
proof -
  have t: "createReviewApp_try c p s = (Inl err, s1)"
    by (simp add: createReviewApp_try_def dl post s1 world_emit)
  have a: "createReviewApp c p s = (Inl err, s1)" if "statusCode err \<noteq> Some 409"
    using that by (simp add: createReviewApp_def t)
  have b: "createReviewApp c p s = (Inr app, s3)"
    if "statusCode err = Some 409" "findReviewApp c p (annotate conflict_warning s1) = (Inr (Some app), s3)"
    using that by (simp add: createReviewApp_def t conflict_warning_def)
  have b': "fst (create_and_watch n c p s) =
              map_option (map_sum id (\<lambda>updatedApp. ())) (fst (waitReviewAppUpdated n c p s3))"
    if "createReviewApp c p s = (Inr app, s3)"
    using that by (simp add: create_and_watch_def split: prod.splits option.splits sum.splits)
  have d: "createReviewApp c p s = (Inl (Error ''Previously got status 409 but no app found''), s3)"
    if "statusCode err = Some 409" "findReviewApp c p (annotate conflict_warning s1) = (Inr None, s3)"
    using that by (simp add: createReviewApp_def t conflict_warning_def)
  have d': "fst (run n c p s00) = Some () \<and>
            failed (snd (run n c p s00)) = Some ''Previously got status 409 but no app found''"
    if "createReviewApp c p s = (Inl (Error ''Previously got status 409 but no app found''), s3)"
       "reaches_create n c p s00 s"
    using that by (simp add: run_def run_try_reaches_create create_and_watch_def setFailed_def Error_def)
  show ?thesis using a b b' d d' by blast
qed

theorem C3_create_conflict_witness:
  "fst (createReviewApp pr42 conflict_platform (init 1)) = Inr (app1 ''created'') \<and>
   fst (create_and_watch 1 pr42 conflict_platform (init 1)) = Some (Inr ()) \<and>
   fst (createReviewApp pr42
          (scripted_platform (\<lambda>k. []) [] (Inl (JsError ''Error'' ''Conflict'' (Some 409)))) (init 1))
     = Inl (Error ''Previously got status 409 but no app found'') \<and>
   fst (createReviewApp pr42
          (scripted_platform (\<lambda>k. []) [] (Inl (JsError ''Error'' ''Unprocessable'' (Some 422)))) (init 1))
     = Inl (JsError ''Error'' ''Unprocessable'' (Some 422))"
proof -
  let ?url = "''https://archive.example/tarball''"
  let ?e409 = "JsError ''Error'' ''Conflict'' (Some 409)"
  let ?e422 = "JsError ''Error'' ''Unprocessable'' (Some 422)"
  let ?q = "scripted_platform (\<lambda>k. []) [] (Inl ?e409)"
  let ?u = "scripted_platform (\<lambda>k. []) [] (Inl ?e422)"
  have dl: "downloadTarballArchive conflict_platform (archiveBody pr42) (world (init 1)) = (Inr ?url, 1)"
    by (simp add: conflict_platform_def scripted_platform_def init_def)
  have post: "post_review_apps conflict_platform (create_request pr42 ?url) 1 = (Inl ?e409, 1)"
    by (simp add: conflict_platform_def scripted_platform_def)
  let ?s1 = "emit (PostReviewApps (create_request pr42 ?url) (Inl ?e409)) 1
               (emit (DownloadTarball (archiveBody pr42) (Inr ?url)) 1 (init 1))"
  obtain s3 where f: "findReviewApp pr42 conflict_platform (annotate conflict_warning ?s1)
                        = (Inr (Some (app1 ''created'')), s3)"
    by (simp add: findReviewApp_def conflict_platform_def scripted_platform_def emit_def
        annotate_def app1_def pr42_def)
  have "fst (waitReviewAppUpdated 1 pr42 conflict_platform
               (snd (findReviewApp pr42 conflict_platform (annotate conflict_warning ?s1))))
          = Some (Inr \<lparr>app_id = ''app-1'', web_url = ''https://app.example''\<rparr>)"
    by code_simp
  with f have w: "fst (waitReviewAppUpdated 1 pr42 conflict_platform s3)
                    = Some (Inr \<lparr>app_id = ''app-1'', web_url = ''https://app.example''\<rparr>)"
    by simp
  from C3_create_conflict [OF dl post refl, of "app1 ''created''" s3 1] f w
  have 1: "fst (createReviewApp pr42 conflict_platform (init 1)) = Inr (app1 ''created'') \<and>
           fst (create_and_watch 1 pr42 conflict_platform (init 1)) = Some (Inr ())"
    by simp
  have dlq: "downloadTarballArchive ?q (archiveBody pr42) (world (init 1)) = (Inr ?url, 1)"
    by (simp add: scripted_platform_def init_def)
  have postq: "post_review_apps ?q (create_request pr42 ?url) 1 = (Inl ?e409, 1)"
    by (simp add: scripted_platform_def)
  obtain s4 where g: "findReviewApp pr42 ?q (annotate conflict_warning ?s1) = (Inr None, s4)"
    by (simp add: findReviewApp_def scripted_platform_def)
  from C3_create_conflict [OF dlq postq refl, of _ _ _ s4] g
  have 2: "fst (createReviewApp pr42 ?q (init 1)) = Inl (Error ''Previously got status 409 but no app found'')"
    by simp
  have dlu: "downloadTarballArchive ?u (archiveBody pr42) (world (init 1)) = (Inr ?url, 1)"
    by (simp add: scripted_platform_def init_def)
  have postu: "post_review_apps ?u (create_request pr42 ?url) 1 = (Inl ?e422, 1)"
    by (simp add: scripted_platform_def)
  from C3_create_conflict [OF dlu postu refl]
  have 3: "fst (createReviewApp pr42 ?u (init 1)) = Inl ?e422"
    by simp
  from 1 2 3 show ?thesis by blast
qed

subsection \<open>The fork skip\<close>

text \<open>
  C4. For an event whose \<open>forkRepo\<close> flag is set, \<open>run\<close> returns, having issued no remote
  call at all (so no create, delete or destroy request) and having left the remote world as
  it was; when the event is of the supported type, which is what line 42 checks first, the
  run is not marked failed.
\<close>

theorem C4_fork_skip:
  assumes "forkRepo c"
  shows "fst (run n c p (init w)) = Some () \<and>
         calls (snd (run n c p (init w))) = [] \<and>
         world (snd (run n c p (init w))) = w \<and>
         (eventName c = VALID_EVENT \<longrightarrow> failed (snd (run n c p (init w))) = None)"
  using assms by (simp add: run_def run_try_def init_def annotate_def setFailed_def)

theorem C4_fork_skip_witness:
  "forkRepo (pr42\<lparr>forkRepo := True\<rparr>) \<and>
   eventName (pr42\<lparr>forkRepo := True\<rparr>) = VALID_EVENT \<and>
   run 3 (pr42\<lparr>forkRepo := True\<rparr>)
       (scripted_platform (\<lambda>k. [app1 ''created'']) [] (Inr (app1 ''creating''))) (init 0)
     = (Some (), \<lparr>world = 0, calls = [],
                  annotations = [Notice ''No secrets are available for PRs in forked repos.''],
                  failed = None, outputs = []\<rparr>)"
proof -
  let ?c = "pr42\<lparr>forkRepo := True\<rparr>"
  let ?p = "scripted_platform (\<lambda>k. [app1 ''created'']) [] (Inr (app1 ''creating''))"
  have f: "forkRepo ?c" by (simp add: pr42_def)
  have e: "eventName ?c = VALID_EVENT" by (simp add: pr42_def VALID_EVENT_def)
  have a: "annotations (snd (run 3 ?c ?p (init 0)))
             = [Notice ''No secrets are available for PRs in forked repos.''] \<and>
           outputs (snd (run 3 ?c ?p (init 0))) = []"
    using f e by (simp add: run_def run_try_def init_def annotate_def)
  obtain r where r: "snd (run 3 ?c ?p (init 0)) = r" by simp
  from C4_fork_skip [OF f, of 3 ?p 0] e a r
  have "fst (run 3 ?c ?p (init 0)) = Some () \<and>
        r = \<lparr>world = 0, calls = [],
             annotations = [Notice ''No secrets are available for PRs in forked repos.''],
             failed = None, outputs = []\<rparr>"
    by (cases r) simp
  with r f e show ?thesis by (simp add: prod_eq_iff)
qed

subsection \<open>Closing a pull request that has no review app\<close>

text \<open>
  The branch of lines 242 to 256 is taken when \<open>github.context.action\<close>, the name of the step,
  is \<open>closed\<close>. When the locator then finds no review app, the \<open>try\<close> block of \<open>run\<close> throws
  nothing, \<open>run\<close> returns, the run is marked failed with the message of line 252, and the
  list request is the only remote call: no delete request is issued.
\<close>

lemma close_branch_without_app:
  assumes "eventName c = VALID_EVENT" and "\<not> forkRepo c" and "action c = ''closed''"
    and "get_review_apps p (apiUrl c) w = (Inr reviewApps, w')"
    and "find (\<lambda>app. ra_pr_number app = prNumber c) reviewApps = None"
  shows \<open>run_try n c p (init w) = (Some (Inr ()), snd (run n c p (init w))) \<and>
         fst (run n c p (init w)) = Some () \<and>
         failed (snd (run n c p (init w))) =
           Some (''Action "closed", yet no existing review app for PR #'' @ string_of_nat (prNumber c)) \<and>
         calls (snd (run n c p (init w))) = [GetReviewApps (apiUrl c) (Inr reviewApps)]\<close>
  using assms
  by (simp add: run_def run_try_def close_review_app_def findReviewApp_def
      init_def annotate_def setFailed_def emit_def)

lemma close_branch_without_app_example:
  \<open>run 3 (pr42\<lparr>action := ''closed''\<rparr>)
       (scripted_platform (\<lambda>k. []) [] (Inr (app1 ''creating''))) (init 0)
     = (Some (),
        \<lparr>world = 1, calls = [GetReviewApps ''/pipelines/pipe/review-apps'' (Inr [])],
         annotations = [ErrorMsg ''Could not find review app for PR #42'',
                        ErrorMsg ''Action "closed", yet no existing review app for PR #42''],
         failed = Some ''Action "closed", yet no existing review app for PR #42'',
         outputs = []\<rparr>)\<close>
proof -
  let ?c = "pr42\<lparr>action := ''closed''\<rparr>"
  let ?p = "scripted_platform (\<lambda>k. []) [] (Inr (app1 ''creating''))"
  have n42: "string_of_nat 42 = ''42''" by code_simp
  have h1: "eventName ?c = VALID_EVENT" by (simp add: pr42_def VALID_EVENT_def)
  have h2: "\<not> forkRepo ?c" by (simp add: pr42_def)
  have h3: "action ?c = ''closed''" by simp
  have h4: "get_review_apps ?p (apiUrl ?c) 0 = (Inr [], Suc 0)"
    by (simp add: scripted_platform_def)
  have h5: "find (\<lambda>app. ra_pr_number app = prNumber ?c) [] = None" by simp
  have rest: \<open>world (snd (run 3 ?c ?p (init 0))) = 1 \<and>
              annotations (snd (run 3 ?c ?p (init 0)))
                = [ErrorMsg (''Could not find review app for PR #'' @ string_of_nat 42),
                   ErrorMsg (''Action "closed", yet no existing review app for PR #'' @ string_of_nat 42)] \<and>
              outputs (snd (run 3 ?c ?p (init 0))) = []\<close>
    by (simp add: run_def run_try_def close_review_app_def findReviewApp_def init_def
        annotate_def setFailed_def emit_def scripted_platform_def pr42_def VALID_EVENT_def)
  obtain r where r: "snd (run 3 ?c ?p (init 0)) = r" by simp
  from close_branch_without_app [OF h1 h2 h3 h4 h5, of 3] rest r
  have \<open>fst (run 3 ?c ?p (init 0)) = Some () \<and>
        r = \<lparr>world = 1, calls = [GetReviewApps ''/pipelines/pipe/review-apps'' (Inr [])],
             annotations = [ErrorMsg ''Could not find review app for PR #42'',
                            ErrorMsg ''Action "closed", yet no existing review app for PR #42''],
             failed = Some ''Action "closed", yet no existing review app for PR #42'',
             outputs = []\<rparr>\<close>
    by (cases r) (simp add: n42 apiUrl_def pr42_def)
  with r show ?thesis by (simp add: prod_eq_iff)
qed

text \<open>
  C5. The claim fails on the code: line 242 compares \<open>github.context.action\<close>, the name of
  the step, with \<open>closed\<close>, where the activity of the pull request is \<open>payload.action\<close>. For the
  event of closing a pull request that has no review app, handled by a step whose name is not
  \<open>closed\<close>, the run does not take the branch of lines 242 to 256: it is not marked failed, it
  issues a create request for the closed pull request, waits for the build and sets the outputs.
\<close>

theorem C5_closed_event_without_app_creates:
  "payloadAction closed_pr = ''closed'' \<and> eventName closed_pr = VALID_EVENT \<and>
   \<not> forkRepo closed_pr \<and>
   run 1 closed_pr fresh_platform (init 0)
     = (Some (),
        \<lparr>world = 3,
         calls = [GetReviewApps ''/pipelines/pipe/review-apps'' (Inr []),
                  DownloadTarball (archiveBody closed_pr) (Inr ''https://archive.example/tarball''),
                  PostReviewApps (create_request closed_pr ''https://archive.example/tarball'')
                    (Inr (app1 ''creating'')),
                  GetReviewApps ''/pipelines/pipe/review-apps'' (Inr [app1 ''created'']),
                  GetBuilds ''/apps/app-1/builds'' (Inr [build_v ''def456'' ''succeeded'']),
                  GetReviewApps ''/pipelines/pipe/review-apps'' (Inr [app1 ''created'']),
                  GetBuilds ''/apps/app-1/builds'' (Inr [build_v ''def456'' ''succeeded'']),
                  WaitSeconds 5,
                  GetApp ''/apps/app-1'' (Inr \<lparr>app_id = ''app-1'', web_url = ''https://app.example''\<rparr>)],
         annotations = [], failed = None,
         outputs = [(''app_id'', ''app-1''), (''app_web_url'', ''https://app.example'')]\<rparr>)"
  by code_simp

subsection \<open>The status of the commit's build\<close>

text \<open>
  C6. The check of a watcher iteration answers "finished" exactly when the review app is in
  none of the states \<open>pending\<close>, \<open>creating\<close>, \<open>deleting\<close>, has an application, the build list of
  that application was fetched, and the first build of the list whose version is the commit's
  has status \<open>succeeded\<close>. When the build list was fetched and holds a build of the commit's
  version, the first such build decides alone, whatever the other builds are: \<open>succeeded\<close>
  is "finished", \<open>pending\<close> is "not finished", and any other status throws the error of
  line 135, whose message carries the review app's \<open>error_status\<close>, or \<open>no error provided\<close>
  when that is absent or empty.
\<close>

theorem C6_build_version_matching:
  \<open>((fst (checkBuildStatusForReviewApp c p app s) = Inr True) \<longleftrightarrow>
      (\<exists>a appId latestBuilds w b.
         app = Some a \<and> ra_status a \<notin> {''pending'', ''creating'', ''deleting''} \<and>
         ra_app a = Some appId \<and>
         get_builds p (''/apps/'' @ appId @ ''/builds'') (world s) = (Inr latestBuilds, w) \<and>
         find (\<lambda>b. version c = source_blob_version b) latestBuilds = Some b \<and>
         build_status b = ''succeeded'')) \<and>
   (ra_status a \<notin> {''pending'', ''creating'', ''deleting''} \<and> ra_app a = Some appId \<and>
    get_builds p (''/apps/'' @ appId @ ''/builds'') (world s) = (Inr latestBuilds, w) \<and>
    find (\<lambda>b. version c = source_blob_version b) latestBuilds = Some b \<longrightarrow>
      fst (checkBuildStatusForReviewApp c p (Some a) s) =
        (if build_status b = ''succeeded'' then Inr True
         else if build_status b = ''pending'' then Inr False
         else Inl (Error (''Unexpected build status: "'' @ ra_status a @ ''": '' @
                          (case ra_error_status a of
                             None \<Rightarrow> ''no error provided''
                           | Some d \<Rightarrow> if d = [] then ''no error provided'' else d)))))\<close>
proof -
  have A: \<open>(fst (checkBuildStatusForReviewApp c p app s) = Inr True) \<longleftrightarrow>
      (\<exists>a appId latestBuilds w b.
         app = Some a \<and> ra_status a \<notin> {''pending'', ''creating'', ''deleting''} \<and>
         ra_app a = Some appId \<and>
         get_builds p (''/apps/'' @ appId @ ''/builds'') (world s) = (Inr latestBuilds, w) \<and>
         find (\<lambda>b. version c = source_blob_version b) latestBuilds = Some b \<and>
         build_status b = ''succeeded'')\<close>
    by (auto simp: checkBuildStatusForReviewApp_def Let_def
        split: option.splits prod.splits sum.splits if_splits)
  have B: \<open>fst (checkBuildStatusForReviewApp c p (Some a) s) =
        (if build_status b = ''succeeded'' then Inr True
         else if build_status b = ''pending'' then Inr False
         else Inl (Error (''Unexpected build status: "'' @ ra_status a @ ''": '' @
                          (case ra_error_status a of
                             None \<Rightarrow> ''no error provided''
                           | Some d \<Rightarrow> if d = [] then ''no error provided'' else d))))\<close>
    if "ra_status a \<notin> {''pending'', ''creating'', ''deleting''}" "ra_app a = Some appId"
       "get_builds p (''/apps/'' @ appId @ ''/builds'') (world s) = (Inr latestBuilds, w)"
       "find (\<lambda>b. version c = source_blob_version b) latestBuilds = Some b"
    using that by (simp add: checkBuildStatusForReviewApp_def errorDetail_def)
  show ?thesis using A B by blast
qed

theorem C6_build_version_matching_witness:
  \<open>fst (checkBuildStatusForReviewApp pr42
          (builds_platform [build_v ''abc123'' ''succeeded'', build_v ''def456'' ''pending''])
          (Some (app1 ''created'')) (init 0)) = Inr False \<and>
   fst (checkBuildStatusForReviewApp pr42
          (builds_platform [build_v ''abc123'' ''failed'', build_v ''def456'' ''succeeded''])
          (Some (app1 ''created'')) (init 0)) = Inr True \<and>
   fst (checkBuildStatusForReviewApp pr42
          (builds_platform [build_v ''def456'' ''failed''])
          (Some errored_app) (init 0))
     = Inl (Error ''Unexpected build status: "errored": slug compile failed'') \<and>
   fst (checkBuildStatusForReviewApp pr42
          (builds_platform [build_v ''def456'' ''failed''])
          (Some (app1 ''created'')) (init 0))
     = Inl (Error ''Unexpected build status: "created": no error provided'')\<close>
proof -
  have st: "ra_status (app1 ''created'') \<notin> {''pending'', ''creating'', ''deleting''}"
           "ra_app (app1 ''created'') = Some ''app-1''"
           "ra_status errored_app \<notin> {''pending'', ''creating'', ''deleting''}"
           "ra_app errored_app = Some ''app-1''"
    by (simp_all add: app1_def errored_app_def)
  have g: "get_builds (builds_platform bs) (''/apps/'' @ ''app-1'' @ ''/builds'') (world (init 0)) = (Inr bs, 0)"
    for bs by (simp add: builds_platform_def scripted_platform_def init_def)
  have f1: "find (\<lambda>b. version pr42 = source_blob_version b)
              [build_v ''abc123'' ''succeeded'', build_v ''def456'' ''pending''] = Some (build_v ''def456'' ''pending'')"
    by (simp add: pr42_def build_v_def)
  have f2: "find (\<lambda>b. version pr42 = source_blob_version b)
              [build_v ''abc123'' ''failed'', build_v ''def456'' ''succeeded''] = Some (build_v ''def456'' ''succeeded'')"
    by (simp add: pr42_def build_v_def)
  have f3: "find (\<lambda>b. version pr42 = source_blob_version b)
              [build_v ''def456'' ''failed''] = Some (build_v ''def456'' ''failed'')"
    by (simp add: pr42_def build_v_def)
  note step = C6_build_version_matching [THEN conjunct2, rule_format]
  have 1: "fst (checkBuildStatusForReviewApp pr42
          (builds_platform [build_v ''abc123'' ''succeeded'', build_v ''def456'' ''pending''])
          (Some (app1 ''created'')) (init 0)) = Inr False"
    using step [OF conjI [OF st(1) conjI [OF st(2) conjI [OF g f1]]]] by (simp add: build_v_def)
  have 2: "fst (checkBuildStatusForReviewApp pr42
          (builds_platform [build_v ''abc123'' ''failed'', build_v ''def456'' ''succeeded''])
          (Some (app1 ''created'')) (init 0)) = Inr True"
    using step [OF conjI [OF st(1) conjI [OF st(2) conjI [OF g f2]]]] by (simp add: build_v_def)
  have 3: \<open>fst (checkBuildStatusForReviewApp pr42
          (builds_platform [build_v ''def456'' ''failed''])
          (Some errored_app) (init 0))
     = Inl (Error ''Unexpected build status: "errored": slug compile failed'')\<close>
    using step [OF conjI [OF st(3) conjI [OF st(4) conjI [OF g f3]]]]
    by (simp add: build_v_def errored_app_def)
  have 4: \<open>fst (checkBuildStatusForReviewApp pr42
          (builds_platform [build_v ''def456'' ''failed''])
          (Some (app1 ''created'')) (init 0))
     = Inl (Error ''Unexpected build status: "created": no error provided'')\<close>
    using step [OF conjI [OF st(1) conjI [OF st(2) conjI [OF g f3]]]]
    by (simp add: build_v_def app1_def)
  from 1 2 3 4 show ?thesis by blast
qed

subsection \<open>The order of destroy, create and watch\<close>



subsection \<open>The application that the destroy request names\<close>

lemma destroy_existing_url:
  assumes "destroy_existing n c p app s = (r, s')"
  shows "\<exists>x evs. calls s' = calls s @ Delete (''/apps/'' @ ra_id app) x # evs"
proof -
  obtain x w where d: "delete_url p (''/apps/'' @ ra_id app) (world s) = (x, w)"
    by (cases "delete_url p (''/apps/'' @ ra_id app) (world s)")
  define s2 where "s2 = (case x of
          Inl err \<Rightarrow> annotate (Notice (''Error destroying app: '' @ toString err))
                      (emit (Delete (''/apps/'' @ ra_id app) x) w s)
        | Inr u \<Rightarrow> emit (Delete (''/apps/'' @ ra_id app) x) w s)"
  have c2: "calls s2 = calls s @ [Delete (''/apps/'' @ ra_id app) x]"
    by (simp add: s2_def calls_emit calls_annotate split: sum.splits)
  from assms d have "destroy_wait n c p ''deleting'' s2 = (r, s')"
    by (cases x) (simp_all add: destroy_existing_def s2_def Let_def)
  from destroy_wait_calls [OF this] c2 show ?thesis by auto
qed

text \<open>
  C8. The claim fails on the code: line 261 builds the URL of the delete request from
  \<open>app.id\<close>, the id of the review app, where lines 100 and 165 use \<open>app.app.id\<close>, the id of
  the application. For a review app \<open>ra-1\<close> whose application is \<open>app-1\<close>, the run asks to
  delete \<open>/apps/ra-1\<close>.
\<close>

theorem C8_destroy_names_the_review_app_id:
  "ra_id (app1 ''created'') = ''ra-1'' \<and> ra_app (app1 ''created'') = Some ''app-1'' \<and>
   take 2 (calls (snd (run 2 pr42 recreate_platform (init 0))))
     = [GetReviewApps ''/pipelines/pipe/review-apps'' (Inr [app1 ''created'']),
        Delete ''/apps/ra-1'' (Inr ())]"
  by code_simp

subsection \<open>The fork repository id of the create request\<close>

text \<open>
  The claim of C9 as it is written fails: for a pull request whose base repository is a
  fork and whose head repository is not, the run issues a create request without
  \<open>fork_repo_id\<close>.
\<close>

theorem C9_base_fork_counterexample:
  "baseRepoFork base_fork_pr \<and>
   PostReviewApps (create_request base_fork_pr ''https://archive.example/tarball'') (Inr (app1 ''creating''))
     \<in> set (calls (snd (run 1 base_fork_pr
                         (scripted_platform (\<lambda>k. []) [] (Inr (app1 ''creating''))) (init 0)))) \<and>
   fork_repo_id (create_request base_fork_pr ''https://archive.example/tarball'') = None"
  by code_simp

text \<open>
  C9, amended. The body that \<open>createReviewApp\<close> builds carries \<open>fork_repo_id\<close>, set to the id
  of the head repository, exactly when the head repository of the pull request is a fork
  (\<open>forkRepo\<close>, the flag that also decides the fork skip). Every create request that a run
  issues is built that way, in a run whose \<open>forkRepo\<close> is false, so that none of them carries
  \<open>fork_repo_id\<close>.
\<close>

theorem C9_fork_repo_id:
  "fork_repo_id (create_request c archiveUrl) = (if forkRepo c then Some (repoId c) else None) \<and>
   (PostReviewApps body x \<in> set (calls (snd (run n c p (init w)))) \<longrightarrow>
      \<not> forkRepo c \<and> fork_repo_id body = None \<and> (\<exists>url. body = create_request c url))"
proof -
  have A: "fork_repo_id (create_request c archiveUrl) = (if forkRepo c then Some (repoId c) else None)"
    by (simp add: create_request_def forkRepoId_def)
  have B: "\<not> forkRepo c \<and> fork_repo_id body = None \<and> (\<exists>url. body = create_request c url)"
    if m: "PostReviewApps body x \<in> set (calls (snd (run n c p (init w))))"
  proof -
    from m obtain s0 url y rest where
      rc: "reaches_create n c p (init w) s0"
      and s0: "\<forall>e\<in>set (calls s0). \<not> is_create e \<and> \<not> is_watch e"
      and t: "calls (snd (run n c p (init w))) =
                calls s0 @ [DownloadTarball (archiveBody c) (Inr url),
                            PostReviewApps (create_request c url) y] @ rest"
      and rest: "\<forall>e\<in>set rest. \<not> is_create e" by (rule run_create_shape)
    from rc have nf: "\<not> forkRepo c" by (simp add: reaches_create_def)
    have c: "is_create (PostReviewApps body x)" by (simp add: is_create_def)
    from m t s0 rest c have "body = create_request c url" by auto
    with nf show ?thesis by (auto simp: create_request_def forkRepoId_def)
  qed
  from A B show ?thesis by blast
qed

theorem C9_fork_repo_id_witness:
  "fork_repo_id (create_request (pr42\<lparr>forkRepo := True\<rparr>) ''https://archive.example/tarball'') = Some 7 \<and>
   PostReviewApps (create_request pr42 ''https://archive.example/tarball'') (Inr (app1 ''creating''))
     \<in> set (calls (snd (run 1 pr42 (scripted_platform (\<lambda>k. []) [] (Inr (app1 ''creating''))) (init 0)))) \<and>
   \<not> forkRepo pr42 \<and>
   fork_repo_id (create_request pr42 ''https://archive.example/tarball'') = None"
proof -
  let ?p = "scripted_platform (\<lambda>k. []) [] (Inr (app1 ''creating''))"
  let ?b = "create_request pr42 ''https://archive.example/tarball''"
  have m: "PostReviewApps ?b (Inr (app1 ''creating'')) \<in> set (calls (snd (run 1 pr42 ?p (init 0))))"
    by code_simp
  have h: "forkRepo (pr42\<lparr>forkRepo := True\<rparr>) \<and> repoId (pr42\<lparr>forkRepo := True\<rparr>) = 7"
    by (simp add: pr42_def)
  from conjunct1 [OF C9_fork_repo_id [of "pr42\<lparr>forkRepo := True\<rparr>" "''https://archive.example/tarball''"]] h
  have 1: "fork_repo_id (create_request (pr42\<lparr>forkRepo := True\<rparr>) ''https://archive.example/tarball'') = Some 7"
    by simp
  from C9_fork_repo_id [of pr42 _ ?b "Inr (app1 ''creating'')" 1 ?p 0] m
  have 2: "\<not> forkRepo pr42 \<and> fork_repo_id ?b = None" by blast
  from 1 2 m show ?thesis by blast
qed

subsection \<open>A build watch that finds no review app\<close>



end
